theory Spec2Isabelle
  imports Complex_Main "HOL-Library.Sublist"
begin

section \<open>Strings and character classes\<close>

text \<open>
  Python strings are modelled as HOL strings: lists of 8-bit characters, read as the code
  points 0 to 255. On these code points the classes of Python's \<^verbatim>\<open>re\<close> module (for
  \<^verbatim>\<open>str\<close> patterns) and of \<^verbatim>\<open>str.strip\<close> are: \<^verbatim>\<open>\d\<close> the ten ASCII digits;
  \<^verbatim>\<open>\s\<close> the ASCII white space, the separators 28 to 31, NEL (133) and the no-break
  space (160); \<^verbatim>\<open>\w\<close> the underscore and every alphanumeric character, which beyond
  ASCII are the Latin-1 letters, superscript digits and vulgar fractions.
\<close>

definition is_digit :: "char \<Rightarrow> bool" where
  "is_digit c = (c \<in> set ''0123456789'')"

definition is_space :: "char \<Rightarrow> bool" where
  "is_space c = ((of_char c :: nat) \<in> {9, 10, 11, 12, 13, 28, 29, 30, 31, 32, 133, 160})"

definition is_word :: "char \<Rightarrow> bool" where
  "is_word c =
     (c \<in> set ''abcdefghijklmnopqrstuvwxyzABCDEFGHIJKLMNOPQRSTUVWXYZ0123456789_'' \<or>
      (of_char c :: nat) \<in> {170, 178, 179, 181, 185, 186, 188, 189, 190} \<or>
      (192 \<le> (of_char c :: nat) \<and> (of_char c :: nat) \<noteq> 215 \<and> (of_char c :: nat) \<noteq> 247))"

definition strip :: "string \<Rightarrow> string" where
  \<comment> \<open>\<^verbatim>\<open>str.strip()\<close>: white space removed at both ends\<close>
  "strip s = rev (dropWhile is_space (rev (dropWhile is_space s)))"

definition truthy :: "string option \<Rightarrow> bool" where
  \<comment> \<open>Python truth value of a value that is \<^verbatim>\<open>None\<close> or a string\<close>
  "truthy v = (case v of None \<Rightarrow> False | Some s \<Rightarrow> s \<noteq> [])"

section \<open>The regular expressions of the source\<close>

text \<open>
  Every pattern of the two programs is a sequence of literals, greedy repetitions of one
  character class and the anchor \<^verbatim>\<open>$\<close>, with capture groups around whole items. The
  matcher below is the backtracking matcher of \<^verbatim>\<open>re\<close> on such sequences: a repetition
  first takes as many characters as it can and gives them back one at a time while the rest
  of the pattern fails; \<^verbatim>\<open>re.search\<close> tries the start positions from left to right. A
  result lists the text consumed by each item of the pattern.
\<close>

datatype cls = Digit | Word | Space | Ch char | NotCh char

fun cls_match :: "cls \<Rightarrow> char \<Rightarrow> bool" where
  "cls_match Digit c = is_digit c"
| "cls_match Word c = is_word c"
| "cls_match Space c = is_space c"
| "cls_match (Ch d) c = (c = d)"
| "cls_match (NotCh d) c = (c \<noteq> d)"

datatype atom = Lit string | Rep cls nat "nat option" | Eos

fun first_some :: "('a \<Rightarrow> 'b option) \<Rightarrow> 'a list \<Rightarrow> 'b option" where
  "first_some f [] = None"
| "first_some f (x # xs) = (case f x of Some y \<Rightarrow> Some y | None \<Rightarrow> first_some f xs)"

fun match_here :: "atom list \<Rightarrow> string \<Rightarrow> string list option" where
  "match_here [] s = Some []"
| "match_here (Lit w # as) s =
     (if prefix w s then map_option ((#) w) (match_here as (drop (length w) s)) else None)"
| "match_here (Rep c lo hi # as) s =
     (let n = length (takeWhile (cls_match c) s);
          m = (case hi of None \<Rightarrow> n | Some h \<Rightarrow> min h n)
      in first_some (\<lambda>k. map_option ((#) (take k s)) (match_here as (drop k s)))
           (rev [lo ..< Suc m]))"
| "match_here (Eos # as) s =
     (if s = [] \<or> s = [CHR 0x0A] then map_option ((#) []) (match_here as s) else None)"

fun search :: "atom list \<Rightarrow> string \<Rightarrow> string list option" where
  "search p [] = match_here p []"
| "search p (c # s) =
     (case match_here p (c # s) of Some ps \<Rightarrow> Some ps | None \<Rightarrow> search p s)"

text \<open>A pattern with one capture group: the items before it, inside it and after it.\<close>

datatype regex = Regex (before: "atom list") (group: "atom list") (after: "atom list")

definition atoms :: "regex \<Rightarrow> atom list" where
  "atoms r = before r @ group r @ after r"

definition re_search :: "regex \<Rightarrow> string \<Rightarrow> string list option" where
  "re_search r s = search (atoms r) s"

definition group0 :: "string list \<Rightarrow> string" where
  "group0 ps = concat ps"

definition group1 :: "regex \<Rightarrow> string list \<Rightarrow> string" where
  "group1 r ps = concat (take (length (group r)) (drop (length (before r)) ps))"

abbreviation plus :: "cls \<Rightarrow> atom" where
  "plus c \<equiv> Rep c 1 None"

abbreviation star :: "cls \<Rightarrow> atom" where
  "star c \<equiv> Rep c 0 None"

abbreviation opt :: "cls \<Rightarrow> atom" where
  "opt c \<equiv> Rep c 0 (Some 1)"

section \<open>Template identifier\<close>

definition pat_query :: regex where
  \<comment> \<open>\<^verbatim>\<open>template_id=(\d+)\<close>\<close>
  "pat_query = Regex [Lit ''template_id=''] [plus Digit] []"

definition pat_detail :: regex where
  \<comment> \<open>\<^verbatim>\<open>template-detail/[^/]+/(\d+)\<close>\<close>
  "pat_detail = Regex [Lit ''template-detail/'', plus (NotCh CHR ''/''), Lit ''/''] [plus Digit] []"

definition pat_tail19 :: regex where
  \<comment> \<open>\<^verbatim>\<open>/(\d{19})/?$\<close>\<close>
  "pat_tail19 = Regex [Lit ''/''] [Rep Digit 19 (Some 19)] [opt (Ch CHR ''/''), Eos]"

definition pat_template :: regex where
  \<comment> \<open>\<^verbatim>\<open>template/(\d+)\<close>\<close>
  "pat_template = Regex [Lit ''template/''] [plus Digit] []"

definition pat_long :: regex where
  \<comment> \<open>\<^verbatim>\<open>/(\d{16,20})/?\<close>\<close>
  "pat_long = Regex [Lit ''/''] [Rep Digit 16 (Some 20)] [opt (Ch CHR ''/'')]"

definition first_group :: "regex list \<Rightarrow> string \<Rightarrow> string option" where
  \<comment> \<open>the loop \<^verbatim>\<open>for pattern in patterns: match = re.search(pattern, url); if match: return match.group(1)\<close>\<close>
  "first_group rs url = first_some (\<lambda>r. map_option (group1 r) (re_search r url)) rs"

definition extract_template_id :: "string \<Rightarrow> string option" where
  \<comment> \<open>\<^verbatim>\<open>CapCutCatboxScraper.extract_template_id\<close>\<close>
  "extract_template_id url =
     first_group [pat_query, pat_detail, pat_tail19, pat_template, pat_long] url"

definition manual_extract_template_id :: "string \<Rightarrow> string option" where
  \<comment> \<open>\<^verbatim>\<open>ManualTemplateProcessor.extract_template_id\<close>\<close>
  "manual_extract_template_id url = first_group [pat_query, pat_detail, pat_long] url"

text \<open>\<open>has_digit_run n s\<close>: somewhere in \<open>s\<close> there are \<open>n\<close> digits in a row.\<close>

fun has_digit_run :: "nat \<Rightarrow> string \<Rightarrow> bool" where
  "has_digit_run n [] = (n = 0)"
| "has_digit_run n (c # s) = (n \<le> length (takeWhile is_digit (c # s)) \<or> has_digit_run n s)"

section \<open>Deep link\<close>

text \<open>
  The f-string of \<^verbatim>\<open>generate_capcut_link\<close> is the same text in both programs: three
  fixed pieces with the identifier between them. \<^verbatim>\<open>not template_id\<close> holds for
  \<^verbatim>\<open>None\<close> and for the empty string.
\<close>

definition link_head :: string where
  "link_head = ''https://capcut-yt.onelink.me/W3Oy/cw7bmax3?af_dp=capcut%3A%2F%2Ftemplate%2Fdetail%3Fenter_app%3Dother%26enter_from%3DSEO_detail_page%26template_id%3D''"

definition link_mid :: string where
  "link_mid = ''%26template_language%3DNone&af_xp=social&deep_link_sub1=%7B%22share_token%22%3A%22None%22%7D&deep_link_value=capcut%253A%252F%252Ftemplate%252Fdetail%253Fenter_app%253Dother%2526enter_from%253DSEO_detail_page%2526template_id%253D''"

definition link_tail :: string where
  "link_tail = ''%2526template_language%253DNone&is_retargeting=true&pid=SEO_detail''"

definition generate_capcut_link :: "string option \<Rightarrow> string option" where
  \<comment> \<open>\<^verbatim>\<open>CapCutCatboxScraper.generate_capcut_link\<close>\<close>
  "generate_capcut_link template_id =
     (case template_id of
        None \<Rightarrow> None
      | Some d \<Rightarrow> if d = [] then None else Some (link_head @ d @ link_mid @ d @ link_tail))"

definition manual_generate_capcut_link :: "string option \<Rightarrow> string option" where
  \<comment> \<open>\<^verbatim>\<open>ManualTemplateProcessor.generate_capcut_link\<close>\<close>
  "manual_generate_capcut_link template_id =
     (case template_id of
        None \<Rightarrow> None
      | Some d \<Rightarrow> if d = [] then None else Some (link_head @ d @ link_mid @ d @ link_tail))"

text \<open>\<open>occurrences w s\<close>: the number of positions of \<open>s\<close> at which \<open>w\<close> begins.\<close>

fun occurrences :: "string \<Rightarrow> string \<Rightarrow> nat" where
  "occurrences w [] = (if w = [] then 1 else 0)"
| "occurrences w (c # s) = (if prefix w (c # s) then 1 else 0) + occurrences w s"

section \<open>Page parser\<close>

text \<open>
  A parsed page is what the parser asks of it: the first element a CSS selector selects,
  the \<^verbatim>\<open>meta\<close> element named \<^verbatim>\<open>keywords\<close>, and the visible text. An element has its
  tag name, its attributes and its stripped text.
\<close>

record element =
  tag_name :: string
  attrs :: "string \<rightharpoonup> string"
  text_stripped :: string

record page =
  select_one :: "string \<Rightarrow> element option"
  find_meta_keywords :: "element option"
  get_text :: string

definition attr_get :: "element \<Rightarrow> string \<Rightarrow> string \<Rightarrow> string" where
  \<comment> \<open>\<^verbatim>\<open>element.get(name, default)\<close>\<close>
  "attr_get e name dflt = (case attrs e name of None \<Rightarrow> dflt | Some v \<Rightarrow> v)"

definition extract_title :: "page \<Rightarrow> string" where
  \<open>extract_title soup =
     (case first_some
             (\<lambda>selector. case select_one soup selector of
                  None \<Rightarrow> None
                | Some e \<Rightarrow> if 3 < length (text_stripped e) then Some (text_stripped e) else None)
             [''h1[class*="title"]'', ''h1[data-testid*="title"]'', ''.template-title'', ''h1'',
              ''[class*="template"] h1'']
      of Some title \<Rightarrow> title | None \<Rightarrow> ''Untitled Template'')\<close>

definition extract_description :: "page \<Rightarrow> string" where
  \<open>extract_description soup =
     (case first_some
             (\<lambda>selector. case select_one soup selector of
                  None \<Rightarrow> None
                | Some e \<Rightarrow> if tag_name e = ''meta'' then Some (attr_get e ''content'' [])
                           else Some (text_stripped e))
             [''meta[name="description"]'', ''meta[property="og:description"]'', ''.description'',
              ''.template-description'']
      of Some d \<Rightarrow> d | None \<Rightarrow> [])\<close>

fun split_on :: "char \<Rightarrow> string \<Rightarrow> string list" where
  \<comment> \<open>\<^verbatim>\<open>str.split(sep)\<close> for a separator of one character\<close>
  "split_on d [] = [[]]"
| "split_on d (c # s) =
     (if c = d then [] # split_on d s
      else case split_on d s of [] \<Rightarrow> [[c]] | x # xs \<Rightarrow> (c # x) # xs)"

text \<open>
  \<^verbatim>\<open>re.findall\<close> for a pattern with one group that matches no empty text: the text is
  scanned from the left, a match yields its group and the scan goes on behind the match.
  The counter is the number of characters of the last match still to be passed.
\<close>

fun findall_skip :: "regex \<Rightarrow> nat \<Rightarrow> string \<Rightarrow> string list" where
  "findall_skip r k [] = []"
| "findall_skip r (Suc k) (c # s) = findall_skip r k s"
| "findall_skip r 0 (c # s) =
     (case match_here (atoms r) (c # s) of
        None \<Rightarrow> findall_skip r 0 s
      | Some ps \<Rightarrow> group1 r ps # findall_skip r (length (concat ps) - 1) s)"

definition findall :: "regex \<Rightarrow> string \<Rightarrow> string list" where
  "findall r s = findall_skip r 0 s"

definition pat_hashtag :: regex where
  \<comment> \<open>\<^verbatim>\<open>#(\w+)\<close>\<close>
  "pat_hashtag = Regex [Lit ''#''] [plus Word] []"

text \<open>
  \<^verbatim>\<open>list(set(tags))\<close> lists the distinct tags in the order of the interpreter's hash
  table, which the program does not fix: the order is the parameter \<open>set_order\<close>, a function
  that lists each element of its argument once.
\<close>

definition lists_set :: "(string list \<Rightarrow> string list) \<Rightarrow> bool" where
  "lists_set set_order = (\<forall>xs. distinct (set_order xs) \<and> set (set_order xs) = set xs)"

definition extract_tags :: "(string list \<Rightarrow> string list) \<Rightarrow> page \<Rightarrow> string list" where
  "extract_tags set_order soup =
     (let tags = (case find_meta_keywords soup of
                    None \<Rightarrow> []
                  | Some keywords \<Rightarrow>
                      map strip (filter (\<lambda>tag. strip tag \<noteq> [])
                                   (split_on CHR '','' (attr_get keywords ''content'' []))));
          hashtags = findall pat_hashtag (get_text soup)
      in take 5 (set_order (tags @ take 5 hashtags)))"

definition pat_mmss :: regex where
  \<comment> \<open>\<^verbatim>\<open>(\d+):(\d+)\<close>; the program reads group 0 only\<close>
  "pat_mmss = Regex [] [plus Digit] [Lit '':'', plus Digit]"

definition pat_s :: regex where
  \<comment> \<open>\<^verbatim>\<open>(\d+)s\<close>\<close>
  "pat_s = Regex [] [plus Digit] [Lit ''s'']"

definition pat_sec :: regex where
  \<comment> \<open>\<^verbatim>\<open>(\d+)\s*sec\<close>\<close>
  "pat_sec = Regex [] [plus Digit] [star Space, Lit ''sec'']"

definition extract_duration :: "page \<Rightarrow> string" where
  "extract_duration soup =
     (case first_some (\<lambda>r. map_option group0 (re_search r (get_text soup)))
             [pat_mmss, pat_s, pat_sec]
      of Some m \<Rightarrow> m | None \<Rightarrow> ''0:15'')"

section \<open>The world outside the program\<close>

text \<open>
  The network, the video decoder and the clock are inputs of the model. The staging
  files of a run are tracked by path; the export files by path and content.
\<close>

datatype http_result = Raised | Response int string
  \<comment> \<open>\<^verbatim>\<open>requests.post\<close> raised, or answered with a status code and a body\<close>

datatype download_outcome = Downloaded | FailedBeforeOpen | FailedWhileWriting
  \<comment> \<open>the download ran through; it raised before the output file was opened (request,
      status); it raised after the file was opened for writing\<close>

text \<open>
  What \<^verbatim>\<open>cv2.VideoCapture\<close> reports of a file: whether it opened, the frame rate and the
  frame count (0 when the container has none), and the positions at which a frame can be
  decoded. The numbers are finite floats, read as reals; an operation on floats is the
  exact operation followed by the rounding \<open>float_round\<close> of the machine, which is a
  parameter of the world.
\<close>

record video =
  is_opened :: bool
  fps :: real
  frame_count :: real
  decodable :: "int \<Rightarrow> bool"

definition read_at :: "video \<Rightarrow> int \<Rightarrow> bool" where
  \<comment> \<open>\<^verbatim>\<open>cap.set(cv2.CAP_PROP_POS_FRAMES, n); ret, frame = cap.read()\<close>: the value of \<^verbatim>\<open>ret\<close>\<close>
  "read_at cap n = (is_opened cap \<and> decodable cap n)"

record media =
  download :: download_outcome
  capture :: video
  float_round :: "real \<Rightarrow> real"
  imwrite_ok :: bool
  video_reply :: http_result
  thumb_reply :: http_result

record world = media +
  page_loads :: bool
  rendered :: page
  tag_order :: "string list \<Rightarrow> string list"
  found_video_url :: "string option"
  clock_video :: nat
  clock_thumb :: nat

type_synonym files = "string set"

section \<open>Uploader\<close>

definition upload_to_catbox :: "files \<Rightarrow> string \<Rightarrow> http_result \<Rightarrow> string option" where
  \<comment> \<open>\<^verbatim>\<open>CapCutCatboxScraper.upload_to_catbox\<close>; opening a missing file raises, and every
      exception gives \<^verbatim>\<open>None\<close>\<close>
  "upload_to_catbox fs file_path reply =
     (if file_path \<notin> fs then None
      else case reply of
        Raised \<Rightarrow> None
      | Response status_code text \<Rightarrow>
          if status_code = 200
          then (let catbox_url = strip text
                in if prefix ''https://'' catbox_url then Some catbox_url else None)
          else None)"

definition manual_upload_to_catbox :: "files \<Rightarrow> string \<Rightarrow> http_result \<Rightarrow> string option" where
  \<comment> \<open>\<^verbatim>\<open>ManualTemplateProcessor.upload_to_catbox\<close>\<close>
  "manual_upload_to_catbox fs file_path reply =
     (if file_path \<notin> fs then None
      else case reply of
        Raised \<Rightarrow> None
      | Response status_code text \<Rightarrow>
          if status_code = 200 \<and> prefix ''https://'' text then Some (strip text) else None)"

section \<open>Media extractor\<close>

definition py_int :: "real \<Rightarrow> int" where
  \<comment> \<open>\<^verbatim>\<open>int(x)\<close> of a float: truncation towards zero\<close>
  "py_int x = (if 0 \<le> x then \<lfloor>x\<rfloor> else \<lceil>x\<rceil>)"

definition frame_number :: "(real \<Rightarrow> real) \<Rightarrow> video \<Rightarrow> real \<Rightarrow> int" where
  \<comment> \<open>the frame that \<^verbatim>\<open>extract_video_thumbnail\<close> seeks to\<close>
  "frame_number rnd cap timestamp =
     (let duration = (if fps cap > 0 then rnd (frame_count cap / fps cap) else 0);
          timestamp = (if timestamp > duration then rnd (duration / 2) else timestamp)
      in py_int (rnd (timestamp * fps cap)))"

definition extract_video_thumbnail ::
    "(real \<Rightarrow> real) \<Rightarrow> video \<Rightarrow> bool \<Rightarrow> string \<Rightarrow> real \<Rightarrow> files
       \<Rightarrow> string option \<times> files" where
  \<comment> \<open>\<^verbatim>\<open>CapCutCatboxScraper.extract_video_thumbnail\<close>; the result of \<^verbatim>\<open>cv2.imwrite\<close> is
      not looked at\<close>
  "extract_video_thumbnail rnd cap wrote output_path timestamp fs =
     (if \<not> is_opened cap then (None, fs)
      else if read_at cap (frame_number rnd cap timestamp)
        then (Some output_path, if wrote then insert output_path fs else fs)
        else (None, fs))"

definition manual_extract_thumbnail ::
    "video \<Rightarrow> bool \<Rightarrow> string \<Rightarrow> files \<Rightarrow> string option \<times> files" where
  \<comment> \<open>\<^verbatim>\<open>ManualTemplateProcessor.extract_thumbnail\<close>\<close>
  "manual_extract_thumbnail cap wrote thumbnail_path fs =
     (if read_at cap 30
      then (Some thumbnail_path, if wrote then insert thumbnail_path fs else fs)
      else (None, fs))"

section \<open>Fetcher\<close>

definition download_video :: "download_outcome \<Rightarrow> string \<Rightarrow> files \<Rightarrow> string option \<times> files" where
  \<comment> \<open>\<^verbatim>\<open>download_video\<close> of both programs: the output file exists from the moment it is
      opened for writing\<close>
  "download_video outcome output_path fs =
     (case outcome of
        Downloaded \<Rightarrow> (Some output_path, insert output_path fs)
      | FailedBeforeOpen \<Rightarrow> (None, fs)
      | FailedWhileWriting \<Rightarrow> (None, insert output_path fs))"

section \<open>Pipeline orchestrator, automated variant\<close>

record template_core =
  title :: string
  template_id :: "string option"
  capcut_link :: "string option"
  video_url :: "string option"
  thumbnail_url :: "string option"

record template = template_core +
  web_url :: string
  description :: string
  tags :: "string list"
  duration :: string

fun digit_chars :: "nat \<Rightarrow> string" where
  \<comment> \<open>the decimal text of a number, as in an f-string\<close>
  "digit_chars n =
     (if n < 10 then [''0123456789'' ! n]
      else digit_chars (n div 10) @ [''0123456789'' ! (n mod 10)])"

declare digit_chars.simps [simp del]

definition or_else :: "string option \<Rightarrow> string \<Rightarrow> string" where
  \<comment> \<open>\<^verbatim>\<open>x or default\<close>\<close>
  "or_else x dflt = (case x of None \<Rightarrow> dflt | Some s \<Rightarrow> if s = [] then dflt else s)"

definition remove_both :: "string \<Rightarrow> string \<Rightarrow> files \<Rightarrow> files" where
  \<comment> \<open>\<^verbatim>\<open>try: os.remove(a); os.remove(b)\<close> \<^verbatim>\<open>except: pass\<close>: removing a missing file raises
      and ends the block\<close>
  "remove_both a b fs = (if a \<in> fs then (if b \<in> fs then fs - {a} - {b} else fs - {a}) else fs)"

text \<open>
  The result of one call of \<^verbatim>\<open>scrape_template_page\<close>: the dictionary \<^verbatim>\<open>template_data\<close>
  as it is when the call ends (none when the page failed to load, before the dictionary
  was built), whether the call returned the dictionary rather than \<^verbatim>\<open>None\<close>, and
  the staging files it leaves.
\<close>

record outcome =
  data :: "template option"
  returned :: bool
  left_files :: files

definition os_path_join :: "string \<Rightarrow> string \<Rightarrow> string" where
  \<comment> \<open>\<^verbatim>\<open>os.path.join(a, b)\<close> on POSIX\<close>
  "os_path_join a b =
     (if prefix ''/'' b then b
      else if a = [] \<or> suffix ''/'' a then a @ b
      else a @ ''/'' @ b)"

definition video_path_of :: "string option \<Rightarrow> nat \<Rightarrow> string" where
  \<comment> \<open>\<^verbatim>\<open>os.path.join('downloads/videos', f"{template_id or 'unknown'}_{int(time.time())}.mp4")\<close>\<close>
  "video_path_of tid now =
     os_path_join ''downloads/videos'' (or_else tid ''unknown'' @ ''_'' @ digit_chars now @ ''.mp4'')"

definition thumbnail_path_of :: "string option \<Rightarrow> nat \<Rightarrow> string" where
  "thumbnail_path_of tid now =
     os_path_join ''downloads/thumbnails''
       (or_else tid ''unknown'' @ ''_'' @ digit_chars now @ ''.jpg'')"

definition finish :: "template \<Rightarrow> files \<Rightarrow> outcome" where
  \<comment> \<open>\<^verbatim>\<open>if template_data['video_url'] and template_data['thumbnail_url']: return template_data\<close>\<close>
  "finish td fs =
     \<lparr>data = Some td, returned = (truthy (video_url td) \<and> truthy (thumbnail_url td)),
      left_files = fs\<rparr>"

definition template_data_of :: "world \<Rightarrow> string \<Rightarrow> template" where
  \<comment> \<open>the dictionary \<^verbatim>\<open>template_data\<close> as it is first built\<close>
  "template_data_of w template_url =
     \<lparr>title = extract_title (rendered w),
      template_id = extract_template_id template_url,
      capcut_link = None, video_url = None, thumbnail_url = None,
      web_url = template_url,
      description = extract_description (rendered w),
      tags = extract_tags (tag_order w) (rendered w),
      duration = extract_duration (rendered w)\<rparr>"

definition with_link :: "template \<Rightarrow> template" where
  \<comment> \<open>\<^verbatim>\<open>if template_data['template_id']: template_data['capcut_link'] = ...\<close>\<close>
  "with_link template_data =
     (if truthy (template_id template_data)
      then template_data\<lparr>capcut_link := generate_capcut_link (template_id template_data)\<rparr>
      else template_data)"

definition fetch_and_upload :: "world \<Rightarrow> template \<Rightarrow> files \<Rightarrow> outcome" where
  \<comment> \<open>\<^verbatim>\<open>scrape_template_page\<close> from the comment \<^verbatim>\<open># Download video\<close> to its end\<close>
  "fetch_and_upload w template_data fs =
     (let video_path = video_path_of (template_id template_data) (clock_video w);
          (got, fs) = download_video (download w) video_path fs
      in if truthy got
         then
           let thumbnail_path = thumbnail_path_of (template_id template_data) (clock_thumb w);
               (thumb, fs) =
                 extract_video_thumbnail (float_round w) (capture w) (imwrite_ok w)
                   thumbnail_path 2 fs
           in if truthy thumb
              then
                let template_data = template_data\<lparr>video_url :=
                      upload_to_catbox fs video_path (video_reply w)\<rparr>;
                    template_data = template_data\<lparr>thumbnail_url :=
                      upload_to_catbox fs thumbnail_path (thumb_reply w)\<rparr>
                in finish template_data (remove_both video_path thumbnail_path fs)
              else finish template_data fs
         else finish template_data fs)"

definition scrape_template_page :: "world \<Rightarrow> string \<Rightarrow> files \<Rightarrow> outcome" where
  "scrape_template_page w template_url fs =
     (if \<not> page_loads w then \<lparr>data = None, returned = False, left_files = fs\<rparr>
      else
        let template_data = template_data_of w template_url
        in if \<not> truthy (found_video_url w)
           then \<lparr>data = Some template_data, returned = False, left_files = fs\<rparr>
           else fetch_and_upload w (with_link template_data) fs)"

text \<open>
  The state of a run: the result collection \<^verbatim>\<open>self.templates\<close>, the staging files and
  the export files.
\<close>

record 't store =
  templates :: "'t list"
  staging :: files
  outputs :: "string \<rightharpoonup> string"

definition visit :: "world \<Rightarrow> string \<Rightarrow> template store \<Rightarrow> template store" where
  \<comment> \<open>one round of the loop of \<^verbatim>\<open>search_templates\<close>:
      \<^verbatim>\<open>template_data = self.scrape_template_page(url); if template_data: self.templates.append(template_data)\<close>\<close>
  "visit w url st =
     (let r = scrape_template_page w url (staging st);
          st = st\<lparr>staging := left_files r\<rparr>
      in case data r of
           Some td \<Rightarrow> if returned r then st\<lparr>templates := templates st @ [td]\<rparr> else st
         | None \<Rightarrow> st)"

fun visit_all ::
    "nat \<Rightarrow> nat \<Rightarrow> (string \<times> world) list \<Rightarrow> template store \<Rightarrow> template store" where
  \<comment> \<open>the loop with its counter \<^verbatim>\<open>processed\<close> and its \<^verbatim>\<open>break\<close>\<close>
  "visit_all max_results processed [] st = st"
| "visit_all max_results processed ((url, w) # rest) st =
     (let st' = visit w url st;
          processed = (if length (templates st') = length (templates st) then processed
                       else processed + 1)
      in if processed \<ge> max_results then st' else visit_all max_results processed rest st')"

definition search_templates ::
    "nat \<Rightarrow> (string \<times> world) list \<Rightarrow> template store \<Rightarrow> template store" where
  \<comment> \<open>the links found on the search page come with the world each one is visited in\<close>
  "search_templates max_results template_links st =
     visit_all max_results 0 (take max_results template_links) st"

section \<open>Pipeline orchestrator, manual variant\<close>

record manual_template = template_core +
  original_url :: string
  video_source :: string

definition safe_title_of :: "string \<Rightarrow> string" where
  \<comment> \<open>\<^verbatim>\<open>re.sub(r'[^\w\s-]', '', title).strip()[:50]\<close>\<close>
  "safe_title_of t =
     take 50 (strip (filter (\<lambda>c. is_word c \<or> is_space c \<or> c = CHR ''-'') t))"

text \<open>
  The result of one call of \<^verbatim>\<open>process_template\<close>: the two local variables that hold
  the hosted URLs (none while they are unset), the value returned, and the state after
  the call.
\<close>

record manual_outcome =
  video_catbox_url :: "string option"
  thumb_catbox_url :: "string option"
  result :: "manual_template option"
  after :: "manual_template store"

definition temp_file :: "string \<Rightarrow> string option \<Rightarrow> string \<Rightarrow> string" where
  \<comment> \<open>\<^verbatim>\<open>f"temp/{safe_title}_{template_id or 'manual'}.mp4"\<close>, and the same with \<^verbatim>\<open>.jpg\<close>\<close>
  "temp_file safe_title tid ext = ''temp/'' @ safe_title @ ''_'' @ or_else tid ''manual'' @ ext"

definition manual_template_data ::
    "string \<Rightarrow> string option \<Rightarrow> string option \<Rightarrow> string option \<Rightarrow> string option \<Rightarrow> string
       \<Rightarrow> manual_template" where
  \<comment> \<open>the dictionary \<^verbatim>\<open>template_data\<close> of \<^verbatim>\<open>process_template\<close>\<close>
  "manual_template_data ttl tid video_catbox thumb_catbox template_url video_url' =
     \<lparr>title = ttl, template_id = tid,
      capcut_link = (if truthy tid then manual_generate_capcut_link tid else Some []),
      video_url = video_catbox, thumbnail_url = thumb_catbox,
      original_url = or_else template_url [],
      video_source = video_url'\<rparr>"

definition process_template ::
    "media \<Rightarrow> string \<Rightarrow> string \<Rightarrow> string option \<Rightarrow> manual_template store \<Rightarrow> manual_outcome" where
  "process_template m ttl video_url' template_url st =
     (let tid = (if truthy template_url
                 then manual_extract_template_id (or_else template_url [])
                 else None);
          safe_title = safe_title_of ttl;
          video_file = temp_file safe_title tid ''.mp4'';
          thumb_file = temp_file safe_title tid ''.jpg'';
          (got, fs) = download_video (download m) video_file (staging st)
      in if \<not> truthy got
         then \<lparr>video_catbox_url = None, thumb_catbox_url = None, result = None,
               after = st\<lparr>staging := fs\<rparr>\<rparr>
         else
           let (thumb, fs) = manual_extract_thumbnail (capture m) (imwrite_ok m) thumb_file fs
           in if \<not> truthy thumb
              then \<lparr>video_catbox_url = None, thumb_catbox_url = None, result = None,
                    after = st\<lparr>staging := fs\<rparr>\<rparr>
              else
                let video_catbox = manual_upload_to_catbox fs video_file (video_reply m);
                    thumb_catbox = manual_upload_to_catbox fs thumb_file (thumb_reply m);
                    fs = remove_both video_file thumb_file fs
                in if truthy video_catbox \<and> truthy thumb_catbox
                   then
                     let template_data =
                           manual_template_data ttl tid video_catbox thumb_catbox template_url
                             video_url'
                     in \<lparr>video_catbox_url = video_catbox, thumb_catbox_url = thumb_catbox,
                         result = Some template_data,
                         after = st\<lparr>staging := fs, templates := templates st @ [template_data]\<rparr>\<rparr>
                   else \<lparr>video_catbox_url = video_catbox, thumb_catbox_url = thumb_catbox,
                         result = None, after = st\<lparr>staging := fs\<rparr>\<rparr>)"

text \<open>
  The input loop of the manual program: each entry is the three lines typed for one
  template, with the world its media are fetched in. The loop ends at an empty title.
\<close>

fun manual_main ::
    "(string \<times> string \<times> string \<times> media) list \<Rightarrow> manual_template store \<Rightarrow> manual_template store" where
  "manual_main [] st = st"
| "manual_main ((title_line, video_line, template_line, m) # rest) st =
     (if strip title_line = [] then st
      else if strip video_line \<noteq> []
        then manual_main rest
               (after (process_template m (strip title_line) (strip video_line)
                         (if strip template_line = [] then None else Some (strip template_line))
                         st))
        else manual_main rest st)"

section \<open>Exporter\<close>

text \<open>
  \<^verbatim>\<open>csv.DictWriter\<close> with the default dialect: fields joined by commas, a row ended by
  CR LF, a field quoted when it contains a comma, a quote, CR or LF, with its quotes
  doubled. \<^verbatim>\<open>None\<close> is written as the empty field.
\<close>

definition csv_special :: "char \<Rightarrow> bool" where
  "csv_special c = (c = CHR '','' \<or> c = CHR 0x22 \<or> c = CHR 0x0D \<or> c = CHR 0x0A)"

definition csv_field :: "string \<Rightarrow> string" where
  "csv_field f =
     (if list_ex csv_special f
      then [CHR 0x22] @ concat (map (\<lambda>c. if c = CHR 0x22 then [CHR 0x22, CHR 0x22] else [c]) f)
           @ [CHR 0x22]
      else f)"

fun join :: "string \<Rightarrow> string list \<Rightarrow> string" where
  \<comment> \<open>\<^verbatim>\<open>sep.join(xs)\<close>\<close>
  "join sep [] = []"
| "join sep [x] = x"
| "join sep (x # y # ys) = x @ sep @ join sep (y # ys)"

definition csv_row :: "string list \<Rightarrow> string" where
  "csv_row values = join '','' (map csv_field values) @ [CHR 0x0D, CHR 0x0A]"

definition csv_value :: "string option \<Rightarrow> string" where
  "csv_value v = (case v of None \<Rightarrow> [] | Some s \<Rightarrow> s)"

definition fieldnames :: "string list" where
  "fieldnames = [''title'', ''template_id'', ''capcut_link'', ''video_url'', ''thumbnail_url'',
                 ''web_url'', ''description'', ''tags'', ''duration'']"

definition row_of :: "template \<Rightarrow> string list" where
  "row_of t = [title t, csv_value (template_id t), csv_value (capcut_link t),
               csv_value (video_url t), csv_value (thumbnail_url t), web_url t, description t,
               join '', '' (tags t), duration t]"

definition utf8 :: "string \<Rightarrow> string" where
  \<comment> \<open>the bytes of a text in UTF-8: two bytes for a code point from 128 on\<close>
  "utf8 s = concat (map (\<lambda>c. if (of_char c :: nat) < 128 then [c]
                               else [char_of (192 + (of_char c :: nat) div 64),
                                     char_of (128 + (of_char c :: nat) mod 64)]) s)"

definition csv_text :: "template list \<Rightarrow> string" where
  \<comment> \<open>\<^verbatim>\<open>writer.writeheader()\<close>, then \<^verbatim>\<open>writer.writerow\<close> for each template in turn\<close>
  "csv_text ts = csv_row fieldnames @ concat (map (\<lambda>t. csv_row (row_of t)) ts)"

definition export_to_csv :: "string \<Rightarrow> template store \<Rightarrow> template store" where
  \<comment> \<open>\<^verbatim>\<open>CapCutCatboxScraper.export_to_csv\<close>; the file is opened with mode \<^verbatim>\<open>'w'\<close> and
      encoding UTF-8\<close>
  "export_to_csv filename st =
     (if templates st = [] then st
      else st\<lparr>outputs := (outputs st)
             (os_path_join ''output'' filename \<mapsto> utf8 (csv_text (templates st)))\<rparr>)"

definition manual_fieldnames :: "string list" where
  "manual_fieldnames = [''title'', ''template_id'', ''capcut_link'', ''video_url'',
                        ''thumbnail_url'', ''original_url'']"

definition manual_row_of :: "manual_template \<Rightarrow> string list" where
  "manual_row_of t = [title t, or_else (template_id t) [], csv_value (capcut_link t),
                      csv_value (video_url t), csv_value (thumbnail_url t), original_url t]"

definition manual_csv_text :: "manual_template list \<Rightarrow> string" where
  "manual_csv_text ts =
     csv_row manual_fieldnames @ concat (map (\<lambda>t. csv_row (manual_row_of t)) ts)"

definition export_csv :: "string \<Rightarrow> manual_template store \<Rightarrow> manual_template store" where
  \<comment> \<open>\<^verbatim>\<open>ManualTemplateProcessor.export_csv\<close>\<close>
  "export_csv filename st =
     st\<lparr>outputs := (outputs st)
        (os_path_join ''output'' filename \<mapsto> utf8 (manual_csv_text (templates st)))\<rparr>"

section \<open>Properties of records, and sample inputs\<close>

definition hosted :: "'a template_core_scheme \<Rightarrow> bool" where
  \<comment> \<open>both hosted URLs of a record are non-empty\<close>
  "hosted t = (truthy (video_url t) \<and> truthy (thumbnail_url t))"

definition sample_page :: page where
  "sample_page =
     \<lparr>select_one = (\<lambda>_. None), find_meta_keywords = None,
      get_text = ''Phonk edit 0:12 #phonk''\<rparr>"

definition sample_video :: video where
  \<comment> \<open>fifteen seconds at thirty frames a second\<close>
  "sample_video =
     \<lparr>is_opened = True, fps = 30, frame_count = 450, decodable = (\<lambda>n. 0 \<le> n \<and> n < 450)\<rparr>"

definition no_fps_video :: video where
  \<comment> \<open>the same frames in a container without frame rate and frame count\<close>
  "no_fps_video =
     \<lparr>is_opened = True, fps = 0, frame_count = 0, decodable = (\<lambda>n. 0 \<le> n \<and> n < 450)\<rparr>"

definition broken_video :: video where
  \<comment> \<open>a file that opens and of which no frame can be decoded\<close>
  "broken_video =
     \<lparr>is_opened = True, fps = 30, frame_count = 450, decodable = (\<lambda>n. False)\<rparr>"

definition sample_media :: media where
  "sample_media =
     \<lparr>download = Downloaded, capture = sample_video, float_round = (\<lambda>x. x),
      imwrite_ok = True,
      video_reply = Response 200 ''https://files.catbox.moe/abc.mp4'',
      thumb_reply = Response 200 ''https://files.catbox.moe/abc.jpg''\<rparr>"

definition sample_world :: world where
  "sample_world =
     \<lparr>download = Downloaded, capture = sample_video, float_round = (\<lambda>x. x),
      imwrite_ok = True,
      video_reply = Response 200 ''https://files.catbox.moe/abc.mp4'',
      thumb_reply = Response 200 ''https://files.catbox.moe/abc.jpg'',
      page_loads = True, rendered = sample_page, tag_order = remdups,
      found_video_url = Some ''https://cdn.example.com/v.mp4'',
      clock_video = 1700000000, clock_thumb = 1700000001\<rparr>"


definition empty_store :: "'t store" where
  "empty_store = \<lparr>templates = [], staging = {}, outputs = Map.empty\<rparr>"

text \<open>
  \<open>matches_at r s i\<close>: the pattern matches the text at position \<open>i\<close>, the way
  \<^verbatim>\<open>re.compile(r).match(s, i)\<close> does.
\<close>

definition matches_at :: "regex \<Rightarrow> string \<Rightarrow> nat \<Rightarrow> bool" where
  "matches_at r s i = (match_here (atoms r) (drop i s) \<noteq> None)"

definition no_space_first :: "string \<Rightarrow> bool" where
  \<comment> \<open>the text is empty or begins with a character that is no white space\<close>
  "no_space_first s = list_all (\<lambda>c. \<not> is_space c) (take 1 s)"

definition no_digit_first :: "string \<Rightarrow> bool" where
  \<comment> \<open>the text is empty or begins with a character that is no digit\<close>
  "no_digit_first s = list_all (\<lambda>c. \<not> is_digit c) (take 1 s)"

(*DEFS-END*)

section \<open>What a successful match says about the text\<close>

lemma first_some_SomeD: "first_some f xs = Some y \<Longrightarrow> \<exists>x\<in>set xs. f x = Some y"
  by (induction xs) (auto split: option.splits)

lemma first_some_None: "(first_some f xs = None) = (\<forall>x\<in>set xs. f x = None)"
  by (induction xs) (auto split: option.splits)

lemma take_takeWhile: "k \<le> length (takeWhile P s) \<Longrightarrow> list_all P (take k s)"
proof (induction s arbitrary: k)
  case Nil
  then show ?case by simp
next
  case (Cons c s)
  then show ?case by (cases k) (auto split: if_splits)
qed

lemma takeWhile_all_append: "list_all P x \<Longrightarrow> length x \<le> length (takeWhile P (x @ t))"
  by (induction x) auto

lemma match_here_LitD:
  assumes "match_here (Lit w # as) s = Some ps"
  obtains t ps' where "s = w @ t" "ps = w # ps'" "match_here as t = Some ps'"
  using assms by (auto split: if_splits elim!: prefixE)

lemma match_here_RepD:
  assumes "match_here (Rep c lo hi # as) s = Some ps"
  obtains x t ps' where "s = x @ t" "list_all (cls_match c) x" "lo \<le> length x"
    "case hi of None \<Rightarrow> True | Some h \<Rightarrow> length x \<le> h"
    "ps = x # ps'" "match_here as t = Some ps'"
proof -
  define n where "n = length (takeWhile (cls_match c) s)"
  define m where "m = (case hi of None \<Rightarrow> n | Some h \<Rightarrow> min h n)"
  from assms have "first_some (\<lambda>k. map_option ((#) (take k s)) (match_here as (drop k s)))
           (rev [lo ..< Suc m]) = Some ps"
    unfolding m_def n_def by (simp add: Let_def del: upt_Suc)
  then obtain k where k: "k \<in> set (rev [lo ..< Suc m])"
    and r: "map_option ((#) (take k s)) (match_here as (drop k s)) = Some ps"
    by (blast dest: first_some_SomeD)
  from k have lo: "lo \<le> k" and km: "k \<le> m" by auto
  have mn: "m \<le> n" by (simp add: m_def split: option.splits)
  from r obtain ps' where ps': "match_here as (drop k s) = Some ps'" "ps = take k s # ps'"
    by auto
  have kn: "k \<le> length s"
    using km mn length_takeWhile_le [of "cls_match c" s] by (simp add: n_def)
  show thesis
  proof (rule that [of "take k s" "drop k s" ps'])
    show "s = take k s @ drop k s" by simp
    show "list_all (cls_match c) (take k s)"
      using km mn by (intro take_takeWhile) (simp add: n_def)
    show "lo \<le> length (take k s)" using lo kn by simp
    show "case hi of None \<Rightarrow> True | Some h \<Rightarrow> length (take k s) \<le> h"
      using km kn by (auto simp: m_def split: option.splits)
  qed (use ps' in simp_all)
qed


lemma search_SomeD:
  "search p s = Some ps \<Longrightarrow> \<exists>u t. s = u @ t \<and> match_here p t = Some ps"
proof (induction s)
  case Nil
  then show ?case by simp
next
  case (Cons c s)
  show ?case
  proof (cases "match_here p (c # s)")
    case None
    with Cons obtain u t where "s = u @ t" "match_here p t = Some ps" by auto
    then have "c # s = (c # u) @ t \<and> match_here p t = Some ps" by simp
    then show ?thesis by blast
  next
    case (Some a)
    with Cons.prems have "c # s = [] @ (c # s) \<and> match_here p (c # s) = Some ps" by simp
    then show ?thesis by blast
  qed
qed

lemma has_digit_run_append:
  "n \<le> length (takeWhile is_digit t) \<Longrightarrow> has_digit_run n (u @ t)"
proof (induction u)
  case Nil
  then show ?case by (cases t) auto
next
  case (Cons a u)
  then show ?case by simp
qed

lemma has_digit_run_mono: "has_digit_run n s \<Longrightarrow> m \<le> n \<Longrightarrow> has_digit_run m s"
  by (induction s) auto

lemma lit_search_sublist: "search (Lit w # as) s = Some ps \<Longrightarrow> sublist w s"
  by (auto dest!: search_SomeD elim!: match_here_LitD simp: sublist_def)

lemma slash_digits_run:
  assumes "search (Lit ''/'' # Rep Digit lo hi # as) url = Some ps"
  shows "has_digit_run lo url"
proof -
  from assms obtain u t where ut: "url = u @ t"
    and m: "match_here (Lit ''/'' # Rep Digit lo hi # as) t = Some ps"
    by (blast dest: search_SomeD)
  from m obtain t' ps' where t': "t = ''/'' @ t'"
    and m': "match_here (Rep Digit lo hi # as) t' = Some ps'"
    by (rule match_here_LitD)
  from m' obtain x r where x: "t' = x @ r" "list_all (cls_match Digit) x" "lo \<le> length x"
    by (rule match_here_RepD)
  have "cls_match Digit = is_digit" by (rule ext) simp
  with x have "lo \<le> length (takeWhile is_digit t')"
    using takeWhile_all_append [of is_digit x r] by simp
  then have "has_digit_run lo ((u @ ''/'') @ t')" by (rule has_digit_run_append)
  with ut t' show ?thesis by simp
qed

section \<open>Template identifier: the five patterns\<close>

lemma pat_query_None: "\<not> sublist ''template_id='' url \<Longrightarrow> re_search pat_query url = None"
  using lit_search_sublist [of "''template_id=''" _ url]
  by (cases "re_search pat_query url") (auto simp: re_search_def atoms_def pat_query_def)

lemma pat_detail_None: "\<not> sublist ''template-detail/'' url \<Longrightarrow> re_search pat_detail url = None"
  using lit_search_sublist [of "''template-detail/''" _ url]
  by (cases "re_search pat_detail url") (auto simp: re_search_def atoms_def pat_detail_def)

lemma pat_template_None: "\<not> sublist ''template/'' url \<Longrightarrow> re_search pat_template url = None"
  using lit_search_sublist [of "''template/''" _ url]
  by (cases "re_search pat_template url") (auto simp: re_search_def atoms_def pat_template_def)

lemma pat_tail19_None: "\<not> has_digit_run 16 url \<Longrightarrow> re_search pat_tail19 url = None"
  using slash_digits_run [of 19 "Some 19" _ url] has_digit_run_mono [of 19 url 16]
  by (cases "re_search pat_tail19 url") (auto simp: re_search_def atoms_def pat_tail19_def)

lemma pat_long_None: "\<not> has_digit_run 16 url \<Longrightarrow> re_search pat_long url = None"
  using slash_digits_run [of 16 "Some 20" _ url]
  by (cases "re_search pat_long url") (auto simp: re_search_def atoms_def pat_long_def)

text \<open>
  Claim C4, as amended. The automated extractor returns \<^verbatim>\<open>123456789012345\<close> on
  \<^verbatim>\<open>https://x/template-detail/foo/123456789012345\<close>, and it returns none on every URL
  that contains no 16 digits in a row and none of the texts \<^verbatim>\<open>template_id=\<close>,
  \<^verbatim>\<open>template-detail/\<close> and \<^verbatim>\<open>template/\<close>.
\<close>

theorem extract_template_id_example_and_none:
  "extract_template_id ''https://x/template-detail/foo/123456789012345'' = Some ''123456789012345'' \<and>
   (\<not> has_digit_run 16 url \<and> \<not> sublist ''template_id='' url \<and>
    \<not> sublist ''template-detail/'' url \<and> \<not> sublist ''template/'' url
      \<longrightarrow> extract_template_id url = None)"
proof (intro conjI impI)
  show "extract_template_id ''https://x/template-detail/foo/123456789012345'' = Some ''123456789012345''"
    by code_simp
next
  assume "\<not> has_digit_run 16 url \<and> \<not> sublist ''template_id='' url \<and>
    \<not> sublist ''template-detail/'' url \<and> \<not> sublist ''template/'' url"
  then show "extract_template_id url = None"
    by (simp add: extract_template_id_def first_group_def pat_query_None pat_detail_None
        pat_tail19_None pat_template_None pat_long_None)
qed

theorem extract_template_id_none_witness:
  "\<not> has_digit_run 16 ''https://www.capcut.com/explore?q=phonk'' \<and>
   \<not> sublist ''template_id='' ''https://www.capcut.com/explore?q=phonk'' \<and>
   \<not> sublist ''template-detail/'' ''https://www.capcut.com/explore?q=phonk'' \<and>
   \<not> sublist ''template/'' ''https://www.capcut.com/explore?q=phonk'' \<and>
   extract_template_id ''https://www.capcut.com/explore?q=phonk'' = None"
proof -
  have h: "\<not> has_digit_run 16 ''https://www.capcut.com/explore?q=phonk'' \<and>
    \<not> sublist ''template_id='' ''https://www.capcut.com/explore?q=phonk'' \<and>
    \<not> sublist ''template-detail/'' ''https://www.capcut.com/explore?q=phonk'' \<and>
    \<not> sublist ''template/'' ''https://www.capcut.com/explore?q=phonk''"
    by code_simp
  with extract_template_id_example_and_none [of "''https://www.capcut.com/explore?q=phonk''"]
  show ?thesis by blast
qed

text \<open>
  The claim as it was stated fails on its own example: that URL has no run of 16 to 20
  digits (the run has 15) and no \<^verbatim>\<open>template_id=\<close>, and the identifier is found by the
  second pattern.
\<close>

theorem extract_template_id_counterexample:
  "\<not> has_digit_run 16 ''https://x/template-detail/foo/123456789012345'' \<and>
   \<not> sublist ''template_id='' ''https://x/template-detail/foo/123456789012345'' \<and>
   extract_template_id ''https://x/template-detail/foo/123456789012345'' \<noteq> None"
  by code_simp

section \<open>Deep link: where the identifier occurs\<close>

lemma occurrences_short: "length s < length w \<Longrightarrow> occurrences w s = 0"
proof (induction s)
  case Nil
  then show ?case by auto
next
  case (Cons c s)
  then have "\<not> prefix w (c # s)" by (auto dest: prefix_length_le)
  with Cons show ?case by simp
qed

lemma occurrences_self: "w \<noteq> [] \<Longrightarrow> occurrences w w = 1"
  by (cases w) (simp_all add: occurrences_short)

lemma prefix_digits_stop:
  assumes "list_all is_digit w" "\<not> is_digit c"
  shows "prefix w (u @ c # b) = prefix w u"
proof
  assume "prefix w (u @ c # b)"
  then consider "prefix w u" | us where "w = u @ us" "prefix us (c # b)"
    by (auto simp: prefix_append)
  then show "prefix w u"
  proof cases
    case 1
    then show ?thesis .
  next
    case 2
    show ?thesis
    proof (cases us)
      case Nil
      with 2 show ?thesis by simp
    next
      case (Cons a list)
      with 2 have "c \<in> set w" by auto
      with assms show ?thesis by (simp add: list_all_iff)
    qed
  qed
next
  assume "prefix w u"
  then show "prefix w (u @ c # b)" by (rule prefix_prefix)
qed

lemma occurrences_split:
  assumes "list_all is_digit w" "w \<noteq> []" "\<not> is_digit c"
  shows "occurrences w (a @ c # b) = occurrences w a + occurrences w b"
proof (induction a)
  case Nil
  from assms have "\<not> prefix w (c # b)" by (cases w) auto
  with assms(2) show ?case by simp
next
  case (Cons x a)
  have "prefix w (x # a @ c # b) = prefix w (x # a)"
    using prefix_digits_stop [OF assms(1,3), of "x # a" b] by simp
  with Cons show ?case by simp
qed

lemma occurrences_zero: "(occurrences w s = 0) = (\<not> sublist w s)"
  by (induction s) (auto simp: sublist_Cons_right)

lemma sublist_digit_run:
  assumes "list_all is_digit w" "sublist w s"
  shows "has_digit_run (length w) s"
proof -
  from assms(2) obtain u v where "s = u @ w @ v" by (auto simp: sublist_def)
  moreover have "length w \<le> length (takeWhile is_digit (w @ v))"
    using assms(1) by (rule takeWhile_all_append)
  ultimately show ?thesis by (simp add: has_digit_run_append)
qed

lemma link_fixed_runs:
  "\<not> has_digit_run 5 link_head" "\<not> has_digit_run 5 link_mid" "\<not> has_digit_run 5 link_tail"
  by code_simp+

lemma long_not_in_fixed:
  assumes "list_all is_digit d" "5 \<le> length d"
  shows "\<not> sublist d link_head" "\<not> sublist d link_mid" "\<not> sublist d link_tail"
  using assms link_fixed_runs by (blast dest: sublist_digit_run has_digit_run_mono)+

text \<open>
  The identifier stands between a letter and a percent sign both times, so an occurrence
  of a digit string lies wholly inside one of the five pieces of the link.
\<close>

lemma link_occurrences:
  assumes "list_all is_digit d" "d \<noteq> []"
  shows "occurrences d (link_head @ d @ link_mid @ d @ link_tail)
    = 2 + occurrences d link_head + occurrences d link_mid + occurrences d link_tail"
proof -
  obtain h where h: "link_head = h @ ''D''" by (simp add: link_head_def)
  obtain m where m: "link_mid = CHR ''%'' # m @ ''D''" by (simp add: link_mid_def)
  obtain t where t: "link_tail = CHR ''%'' # t" by (simp add: link_tail_def)
  have nd: "\<not> is_digit CHR ''D''" "\<not> is_digit CHR ''%''" by (simp_all add: is_digit_def)
  note sp = occurrences_split [OF assms]
  have e: "occurrences d [] = 0" using assms(2) by simp
  have "link_head @ d @ link_mid @ d @ link_tail
      = h @ CHR ''D'' # (d @ CHR ''%'' # (m @ CHR ''D'' # (d @ CHR ''%'' # t)))"
    by (simp add: h m t)
  then have "occurrences d (link_head @ d @ link_mid @ d @ link_tail)
      = occurrences d h + (occurrences d d + (occurrences d m + (occurrences d d + occurrences d t)))"
    by (simp only: sp [OF nd(1)] sp [OF nd(2)])
  moreover have "occurrences d link_head = occurrences d h"
    using sp [of "CHR ''D''" h "[]"] nd e by (simp add: h)
  moreover have "occurrences d link_mid = occurrences d m"
    using sp [of "CHR ''%''" "[]" "m @ ''D''"] sp [of "CHR ''D''" m "[]"] nd e by (simp add: m)
  moreover have "occurrences d link_tail = occurrences d t"
    using sp [of "CHR ''%''" "[]" t] nd e by (simp add: t)
  ultimately show ?thesis using assms(2) by (simp add: occurrences_self)
qed

text \<open>
  Claim C3, as amended. In both variants the link generator returns none for no
  identifier and for the empty identifier, and for every identifier that is a non-empty
  string of digits which does not occur in the fixed text of the link (every string of
  five or more digits is one) it returns a link in which the identifier occurs exactly
  twice.
\<close>

theorem generate_capcut_link_twice:
  "generate_capcut_link None = None \<and> manual_generate_capcut_link None = None \<and>
   generate_capcut_link (Some []) = None \<and> manual_generate_capcut_link (Some []) = None \<and>
   (list_all is_digit d \<and> d \<noteq> [] \<and>
    (5 \<le> length d \<or> \<not> sublist d link_head \<and> \<not> sublist d link_mid \<and> \<not> sublist d link_tail)
    \<longrightarrow> map_option (occurrences d) (generate_capcut_link (Some d)) = Some 2 \<and>
        map_option (occurrences d) (manual_generate_capcut_link (Some d)) = Some 2)"
proof (intro conjI impI)
  assume a: "list_all is_digit d \<and> d \<noteq> [] \<and>
    (5 \<le> length d \<or> \<not> sublist d link_head \<and> \<not> sublist d link_mid \<and> \<not> sublist d link_tail)"
  then have n: "\<not> sublist d link_head" "\<not> sublist d link_mid" "\<not> sublist d link_tail"
    using long_not_in_fixed [of d] by blast+
  then have "occurrences d (link_head @ d @ link_mid @ d @ link_tail) = 2"
    using a link_occurrences [of d] by (simp add: occurrences_zero)
  with a show "map_option (occurrences d) (generate_capcut_link (Some d)) = Some 2"
    and "map_option (occurrences d) (manual_generate_capcut_link (Some d)) = Some 2"
    by (simp_all add: generate_capcut_link_def manual_generate_capcut_link_def)
qed (simp_all add: generate_capcut_link_def manual_generate_capcut_link_def)

theorem generate_capcut_link_twice_witness:
  "list_all is_digit ''7299286607478181121'' \<and> ''7299286607478181121'' \<noteq> [] \<and>
   5 \<le> length ''7299286607478181121'' \<and>
   map_option (occurrences ''7299286607478181121'')
     (generate_capcut_link (Some ''7299286607478181121'')) = Some 2 \<and>
   map_option (occurrences ''7299286607478181121'')
     (manual_generate_capcut_link (Some ''7299286607478181121'')) = Some 2"
proof -
  have h: "list_all is_digit ''7299286607478181121'' \<and> ''7299286607478181121'' \<noteq> [] \<and>
   5 \<le> length ''7299286607478181121''"
    by code_simp
  with generate_capcut_link_twice [of "''7299286607478181121''"] show ?thesis by blast
qed

text \<open>
  The identifier \<^verbatim>\<open>3\<close> is a non-empty string of digits, and the link for it contains
  \<^verbatim>\<open>3\<close> seventeen times: the fixed text has fifteen of them, in \<^verbatim>\<open>W3Oy\<close>,
  \<^verbatim>\<open>cw7bmax3\<close> and the percent escapes.
\<close>

theorem generate_capcut_link_counterexample:
  "list_all is_digit ''3'' \<and> ''3'' \<noteq> [] \<and>
   map_option (occurrences ''3'') (generate_capcut_link (Some ''3'')) = Some 17 \<and>
   map_option (occurrences ''3'') (manual_generate_capcut_link (Some ''3'')) = Some 17"
  by code_simp

section \<open>Tags\<close>

text \<open>
  Claim C7. For every page, and whatever order the set of tags is listed in, the tag
  extractor returns at most five tags and no tag twice.
\<close>

theorem extract_tags_at_most_five_distinct:
  "lists_set set_order \<Longrightarrow>
   length (extract_tags set_order soup) \<le> 5 \<and> distinct (extract_tags set_order soup)"
  by (simp add: lists_set_def extract_tags_def Let_def)

theorem extract_tags_witness:
  "lists_set remdups \<and>
   extract_tags remdups
     \<lparr>select_one = (\<lambda>_. None),
      find_meta_keywords =
        Some \<lparr>tag_name = ''meta'', attrs = [''content'' \<mapsto> ''phonk, edit,,viral , phonk''],
              text_stripped = []\<rparr>,
      get_text = ''Best #phonk #edit#drift #a #b #c #d''\<rparr>
     = [''viral'', ''phonk'', ''edit'', ''drift'', ''a''] \<and>
   length (extract_tags remdups
     \<lparr>select_one = (\<lambda>_. None),
      find_meta_keywords =
        Some \<lparr>tag_name = ''meta'', attrs = [''content'' \<mapsto> ''phonk, edit,,viral , phonk''],
              text_stripped = []\<rparr>,
      get_text = ''Best #phonk #edit#drift #a #b #c #d''\<rparr>) \<le> 5 \<and>
   distinct (extract_tags remdups
     \<lparr>select_one = (\<lambda>_. None),
      find_meta_keywords =
        Some \<lparr>tag_name = ''meta'', attrs = [''content'' \<mapsto> ''phonk, edit,,viral , phonk''],
              text_stripped = []\<rparr>,
      get_text = ''Best #phonk #edit#drift #a #b #c #d''\<rparr>)"
proof -
  have o: "lists_set remdups" by (simp add: lists_set_def)
  have v: "extract_tags remdups
     \<lparr>select_one = (\<lambda>_. None),
      find_meta_keywords =
        Some \<lparr>tag_name = ''meta'', attrs = [''content'' \<mapsto> ''phonk, edit,,viral , phonk''],
              text_stripped = []\<rparr>,
      get_text = ''Best #phonk #edit#drift #a #b #c #d''\<rparr>
     = [''viral'', ''phonk'', ''edit'', ''drift'', ''a'']"
    by code_simp
  from o v extract_tags_at_most_five_distinct [OF o] show ?thesis by blast
qed

section \<open>Duration\<close>

lemma rep_no_start:
  "0 < lo \<Longrightarrow> \<not> cls_match c x \<Longrightarrow> match_here (Rep c lo hi # as) (x # s) = None"
  by (cases hi) (simp_all add: Let_def del: upt_Suc)

lemma search_skip:
  "0 < lo \<Longrightarrow> list_all (\<lambda>x. \<not> cls_match c x) pre \<Longrightarrow>
   search (Rep c lo hi # as) (pre @ t) = search (Rep c lo hi # as) t"
  by (induction pre) (simp_all del: match_here.simps add: rep_no_start)

lemma rep_greedy:
  assumes "takeWhile (cls_match c) s = x" and "lo \<le> length x"
    and "match_here as (drop (length x) s) = Some ps"
  shows "match_here (Rep c lo None # as) s = Some (x # ps)"
proof -
  have "rev [lo ..< Suc (length x)] = length x # rev [lo ..< length x]"
    using assms(2) by simp
  moreover have "take (length x) s = x"
    using assms(1) takeWhile_eq_take [of "cls_match c" s] by simp
  ultimately show ?thesis
    using assms(1,3) by (simp add: Let_def del: upt_Suc)
qed

lemma takeWhile_digit_stop:
  "list_all (\<lambda>c. \<not> is_digit c) (take 1 post) \<Longrightarrow> takeWhile is_digit post = []"
  by (cases post) auto

lemma search_skip_positions:
  "list_all (\<lambda>i. match_here p (drop i (pre @ t)) = None) [0..<length pre] \<Longrightarrow>
   search p (pre @ t) = search p t"
proof (induction pre)
  case Nil
  then show ?case by simp
next
  case (Cons c pre)
  have "0 \<in> set [0..<length (c # pre)]" by simp
  with Cons.prems have "match_here p (drop 0 ((c # pre) @ t)) = None"
    unfolding list_all_iff by blast
  then have z: "match_here p (c # pre @ t) = None" by simp
  have "list_all (\<lambda>i. match_here p (drop i (pre @ t)) = None) [0..<length pre]"
    unfolding list_all_iff
  proof
    fix i assume "i \<in> set [0..<length pre]"
    then have "Suc i \<in> set [0..<length (c # pre)]" by auto
    with Cons.prems have "match_here p (drop (Suc i) ((c # pre) @ t)) = None"
      unfolding list_all_iff by blast
    then show "match_here p (drop i (pre @ t)) = None" by simp
  qed
  with Cons.IH have "search p (pre @ t) = search p t" .
  with z show ?case by simp
qed

lemma mmss_here:
  assumes "no_digit_first post"
  shows "match_here (atoms pat_mmss) (''1:23'' @ post) = Some [''1'', '':'', ''23'']"
proof -
  have tw: "takeWhile is_digit post = []"
    using assms unfolding no_digit_first_def by (rule takeWhile_digit_stop)
  have c: "cls_match Digit = is_digit" by (rule ext) simp
  have "match_here [plus Digit] (''23'' @ post) = Some [''23'']"
    by (rule rep_greedy) (simp_all add: c is_digit_def tw)
  then have "match_here [Lit '':'', plus Digit] ('':23'' @ post) = Some ['':'', ''23'']"
    by simp
  then have "match_here [plus Digit, Lit '':'', plus Digit] (''1:23'' @ post)
      = Some [''1'', '':'', ''23'']"
    by (intro rep_greedy) (simp_all add: c is_digit_def)
  then show ?thesis by (simp add: atoms_def pat_mmss_def)
qed

lemma duration_leftmost:
  assumes "list_all (\<lambda>i. \<not> matches_at pat_mmss (pre @ ''1:23'' @ post) i) [0..<length pre]"
    and "no_digit_first post"
  shows "extract_duration (soup\<lparr>get_text := pre @ ''1:23'' @ post\<rparr>) = ''1:23''"
proof -
  have "search (atoms pat_mmss) (pre @ ''1:23'' @ post) = search (atoms pat_mmss) (''1:23'' @ post)"
    using assms(1) by (intro search_skip_positions) (simp add: matches_at_def)
  also have "\<dots> = Some [''1'', '':'', ''23'']"
    using mmss_here [OF assms(2)] by simp
  finally show ?thesis
    by (simp add: extract_duration_def re_search_def group0_def)
qed

text \<open>A text without digits before \<^verbatim>\<open>1:23\<close> is a special case: no match can start there.\<close>

lemma no_digit_no_match:
  assumes "list_all (\<lambda>c. \<not> is_digit c) pre"
  shows "list_all (\<lambda>i. \<not> matches_at pat_mmss (pre @ t) i) [0..<length pre]"
  unfolding list_all_iff
proof
  fix i assume "i \<in> set [0..<length pre]"
  then have i: "i < length pre" by simp
  then obtain c rest where d: "drop i pre = c # rest" by (cases "drop i pre") auto
  then have "c \<in> set pre" by (metis in_set_dropD list.set_intros(1))
  with assms have "\<not> is_digit c" by (simp add: list_all_iff)
  then have "match_here (atoms pat_mmss) (c # rest @ t) = None"
    by (simp add: atoms_def pat_mmss_def rep_no_start)
  with i d show "\<not> matches_at pat_mmss (pre @ t) i" by (simp add: matches_at_def)
qed

text \<open>
  Claim C8, as amended. For every page whose visible text contains \<^verbatim>\<open>1:23\<close> with no
  match of \<^verbatim>\<open>(\d+):(\d+)\<close> starting before it and no digit right behind it, the duration
  extractor returns \<^verbatim>\<open>1:23\<close>; for every page whose visible text none of the three
  patterns matches, it returns \<^verbatim>\<open>0:15\<close>.
\<close>

theorem extract_duration_first_match_or_default:
  "(list_all (\<lambda>i. \<not> matches_at pat_mmss (pre @ ''1:23'' @ post) i) [0..<length pre] \<and>
    no_digit_first post
      \<longrightarrow> extract_duration (soup\<lparr>get_text := pre @ ''1:23'' @ post\<rparr>) = ''1:23'') \<and>
   (re_search pat_mmss (get_text soup) = None \<and> re_search pat_s (get_text soup) = None \<and>
    re_search pat_sec (get_text soup) = None
      \<longrightarrow> extract_duration soup = ''0:15'')"
proof (intro conjI impI)
  assume "list_all (\<lambda>i. \<not> matches_at pat_mmss (pre @ ''1:23'' @ post) i) [0..<length pre] \<and>
    no_digit_first post"
  then show "extract_duration (soup\<lparr>get_text := pre @ ''1:23'' @ post\<rparr>) = ''1:23''"
    using duration_leftmost [of pre post soup] by blast
next
  assume "re_search pat_mmss (get_text soup) = None \<and> re_search pat_s (get_text soup) = None \<and>
    re_search pat_sec (get_text soup) = None"
  then show "extract_duration soup = ''0:15''"
    by (simp add: extract_duration_def)
qed

theorem extract_duration_witness:
  "list_all (\<lambda>i. \<not> matches_at pat_mmss (''Top 10 templates '' @ ''1:23'' @ '' min'') i)
     [0..<length ''Top 10 templates ''] \<and>
   no_digit_first '' min'' \<and>
   extract_duration \<lparr>select_one = (\<lambda>_. None), find_meta_keywords = None,
                     get_text = ''Top 10 templates 1:23 min''\<rparr> = ''1:23'' \<and>
   re_search pat_mmss ''A template'' = None \<and> re_search pat_s ''A template'' = None \<and>
   re_search pat_sec ''A template'' = None \<and>
   extract_duration \<lparr>select_one = (\<lambda>_. None), find_meta_keywords = None,
                     get_text = ''A template''\<rparr> = ''0:15''"
proof -
  have a: "list_all (\<lambda>i. \<not> matches_at pat_mmss (''Top 10 templates '' @ ''1:23'' @ '' min'') i)
     [0..<length ''Top 10 templates ''] \<and> no_digit_first '' min''"
    by code_simp
  have b: "re_search pat_mmss ''A template'' = None \<and> re_search pat_s ''A template'' = None \<and>
      re_search pat_sec ''A template'' = None"
    by code_simp
  from a extract_duration_first_match_or_default
         [of "''Top 10 templates ''" "'' min''"
             "\<lparr>select_one = (\<lambda>_. None), find_meta_keywords = None, get_text = []\<rparr>"]
  have "extract_duration \<lparr>select_one = (\<lambda>_. None), find_meta_keywords = None,
                     get_text = ''Top 10 templates 1:23 min''\<rparr> = ''1:23''"
    by simp
  moreover from b extract_duration_first_match_or_default
         [of "[]" "[]"
             "\<lparr>select_one = (\<lambda>_. None), find_meta_keywords = None, get_text = ''A template''\<rparr>"]
  have "extract_duration \<lparr>select_one = (\<lambda>_. None), find_meta_keywords = None,
                     get_text = ''A template''\<rparr> = ''0:15''"
    by simp
  ultimately show ?thesis using a b by blast
qed

text \<open>
  The visible text \<^verbatim>\<open>0:05 / 1:23\<close> contains \<^verbatim>\<open>1:23\<close>, and the extractor returns the
  match further left, \<^verbatim>\<open>0:05\<close>.
\<close>

theorem extract_duration_counterexample:
  "sublist ''1:23'' ''0:05 / 1:23'' \<and>
   extract_duration \<lparr>select_one = (\<lambda>_. None), find_meta_keywords = None,
                     get_text = ''0:05 / 1:23''\<rparr> = ''0:05''"
  by code_simp

section \<open>The two identifier extractors compared\<close>


























end
